theory Spec2Isabelle
  imports Main
begin

section \<open>Python strings\<close>

text \<open>
  The reasons reported by Jenkins are unicode strings: the source matches them against
  the curly quotes U+2018 and U+2019. A string is therefore a list of code points, and
  \<open>u\<close> turns an ASCII literal of the source into one.
\<close>

type_synonym ustring = "int list"

definition u :: "string \<Rightarrow> ustring" where
  "u s = map of_char s"

text \<open>\<^verbatim>\<open>s.startswith(p)\<close>, \<^verbatim>\<open>s.endswith(p)\<close> and the substring test \<^verbatim>\<open>p in s\<close>.\<close>

definition startswith :: "'a list \<Rightarrow> 'a list \<Rightarrow> bool" where
  "startswith s p = (take (length p) s = p)"

definition endswith :: "'a list \<Rightarrow> 'a list \<Rightarrow> bool" where
  "endswith s p = (length p \<le> length s \<and> drop (length s - length p) s = p)"

fun contains :: "'a list \<Rightarrow> 'a list \<Rightarrow> bool" where
  "contains p [] = (p = [])"
| "contains p (c # cs) = (startswith (c # cs) p \<or> contains p cs)"

text \<open>
  The characters \<^verbatim>\<open>str.isspace\<close> accepts: U+0009 to U+000D, U+001C to U+0020, U+0085,
  U+00A0, U+1680, U+2000 to U+200A, U+2028, U+2029, U+202F, U+205F and U+3000.
\<close>

definition isspace :: "int \<Rightarrow> bool" where
  "isspace c = ((9 \<le> c \<and> c \<le> 13) \<or> (28 \<le> c \<and> c \<le> 32) \<or> c = 133 \<or> c = 160 \<or>
     c = 5760 \<or> (8192 \<le> c \<and> c \<le> 8202) \<or> c = 8232 \<or> c = 8233 \<or> c = 8239 \<or>
     c = 8287 \<or> c = 12288)"

text \<open>
  \<^verbatim>\<open>s.split()\<close>: the maximal runs of characters that are not whitespace, in order;
  \<open>cur\<close> is the run being read.
\<close>

fun words_from :: "ustring \<Rightarrow> ustring \<Rightarrow> ustring list" where
  "words_from cur [] = (if cur = [] then [] else [cur])"
| "words_from cur (c # cs) =
     (if isspace c then (if cur = [] then words_from [] cs else cur # words_from [] cs)
      else words_from (cur @ [c]) cs)"

definition split_ws :: "ustring \<Rightarrow> ustring list" where
  "split_ws s = words_from [] s"

text \<open>
  \<^verbatim>\<open>s.split(sep)\<close> for a separator that is not empty (every separator of the source is a
  literal): the pieces between the occurrences of \<open>sep\<close>, found from the left;
  \<open>cur\<close> is the piece being read. There is always at least one piece.
\<close>

function split_from :: "'a list \<Rightarrow> 'a list \<Rightarrow> 'a list \<Rightarrow> 'a list list" where
  "split_from sep cur s =
     (if s = [] then [cur]
      else if sep \<noteq> [] \<and> startswith s sep then cur # split_from sep [] (drop (length sep) s)
      else split_from sep (cur @ [hd s]) (tl s))"
  by pat_completeness auto
termination
  by (relation "measure (\<lambda>(sep, cur, s). length s)") auto

declare split_from.simps [simp del]

definition split_sep :: "'a list \<Rightarrow> 'a list \<Rightarrow> 'a list list" where
  "split_sep s sep = split_from sep [] s"

text \<open>\<^verbatim>\<open>s.strip(chars)\<close> with the set of characters as a predicate, and \<^verbatim>\<open>s.strip()\<close>.\<close>

definition strip_chars :: "('a \<Rightarrow> bool) \<Rightarrow> 'a list \<Rightarrow> 'a list" where
  "strip_chars P s = rev (dropWhile P (rev (dropWhile P s)))"

definition strip :: "ustring \<Rightarrow> ustring" where
  "strip s = strip_chars isspace s"

text \<open>
  Truth of a value that is a string or \<^verbatim>\<open>None\<close>, and \<^verbatim>\<open>a or b\<close> on such values.
\<close>

fun truthy :: "ustring option \<Rightarrow> bool" where
  "truthy None = False"
| "truthy (Some s) = (s \<noteq> [])"

definition py_or :: "ustring option \<Rightarrow> ustring option \<Rightarrow> ustring option" where
  "py_or a b = (if truthy a then a else b)"

section \<open>The node catalog\<close>

text \<open>
  \<^verbatim>\<open>conf['nodes']\<close> maps the name of a node type to its metadata. The source iterates
  over it, so it is a list of pairs in iteration order. \<open>labels\<close> is
  \<^verbatim>\<open>metadata['labels']\<close>; \<open>launch\<close> stands for the launch parameters, which the
  resolution never reads.
\<close>

record metadata =
  labels :: "ustring list"
  launch :: "(ustring \<times> ustring) list"

type_synonym catalog = "(ustring \<times> metadata) list"

definition keys :: "catalog \<Rightarrow> ustring list" where
  "keys d = map fst d"

subsection \<open>\<^verbatim>\<open>sanitize_string\<close>, \<^verbatim>\<open>job_from_url\<close>, \<^verbatim>\<open>get_key\<close>\<close>

text \<open>
  \<^verbatim>\<open>string.replace(i, '')\<close> for a pattern \<open>i\<close> of one character deletes every occurrence
  of the character. U+2018 is 8216 and U+2019 is 8217.
\<close>

definition sanitize_string :: "ustring \<Rightarrow> bool \<Rightarrow> ustring" where
  "sanitize_string string strp =
     (let string = filter (\<lambda>c. c \<noteq> 8216) string;
          string = filter (\<lambda>c. c \<noteq> 8217) string
      in if strp then strip string else string)"

definition job_from_url :: "ustring \<Rightarrow> ustring" where
  "job_from_url url = last (split_sep (strip_chars (\<lambda>c. c = 47) url) (u ''/''))"

text \<open>
  \<^verbatim>\<open>get_key(_dict, key, fallback=True)\<close>. The key may be \<^verbatim>\<open>None\<close>. A function that reaches
  its end returns \<^verbatim>\<open>None\<close>.
\<close>

definition get_key :: "catalog \<Rightarrow> ustring option \<Rightarrow> bool \<Rightarrow> ustring option" where
  "get_key d key fallback =
     (case key of
        None \<Rightarrow> None
      | Some k \<Rightarrow>
          if k = [] then None
          else if k \<in> set (keys d) then Some k
          else if fallback then find (\<lambda>name. contains name k) (keys d)
          else None)"


subsection \<open>\<^verbatim>\<open>is_stuck\<close>\<close>

definition busy_summary :: "ustring \<Rightarrow> bool" where
  "busy_summary string = startswith string (u ''Waiting for'')"

definition offline_label_summary :: "ustring \<Rightarrow> bool" where
  "offline_label_summary string = startswith string (u ''All nodes of label'')"

definition offline_node_summary :: "ustring \<Rightarrow> bool" where
  "offline_node_summary string = endswith string (u ''is offline'')"

definition offline_node_label_summary :: "ustring \<Rightarrow> bool" where
  "offline_node_label_summary string = startswith string (u ''There are no nodes'')"

text \<open>The marker \<^verbatim>\<open>doesn't have label\<close>, its apostrophe being U+2019.\<close>

definition doesnt_have_label :: ustring where
  "doesnt_have_label = u ''doesn'' @ [8217] @ u ''t have label''"

definition node_does_not_have_label :: "ustring \<Rightarrow> bool" where
  "node_does_not_have_label string = contains doesnt_have_label string"

fun first_true :: "(ustring \<Rightarrow> bool) list \<Rightarrow> ustring \<Rightarrow> bool" where
  "first_true [] string = False"
| "first_true (summary # summaries) string =
     (if summary string then True else first_true summaries string)"

definition is_stuck :: "ustring \<Rightarrow> bool" where
  "is_stuck string =
     first_true [busy_summary, offline_label_summary, offline_node_summary,
       offline_node_label_summary, node_does_not_have_label] string"

section \<open>The world outside\<close>

text \<open>
  The exceptions the tasks can raise by themselves: an index out of range, a key that
  a dictionary does not have, a method called on \<^verbatim>\<open>None\<close>, and a value that
  \<^verbatim>\<open>json.dumps\<close> does not serialize.
\<close>

datatype py_error = IndexError | KeyError | AttributeError | TypeError

text \<open>
  What fetching \<^verbatim>\<open>job_url/config.xml\<close> gives \<^verbatim>\<open>match_node_from_job_config\<close>: a response
  whose status raises, a configuration with no \<^verbatim>\<open>assignedNode\<close> element, or the text of that
  element (\<^verbatim>\<open>None\<close> for an element with no text).
\<close>

datatype job_config = Fetch_failed | No_assigned_node | Assigned_node "ustring option"

text \<open>An entry of the Jenkins queue: \<^verbatim>\<open>task['why']\<close>, \<^verbatim>\<open>task['task']['name']\<close>, \<^verbatim>\<open>task['task']['url']\<close>.\<close>

record task =
  why :: "ustring option"
  task_name :: ustring
  task_url :: ustring

text \<open>
  Everything the tasks read from outside:
  \<^item> \<open>conf_nodes\<close>: \<^verbatim>\<open>conf['nodes']\<close>, which \<^verbatim>\<open>get_nodes()\<close> returns;
  \<^item> \<open>matching_nodes\<close>: \<^verbatim>\<open>mita.label_eval.matching_nodes\<close>, whose module is not part of
    the sources: a parameter;
  \<^item> \<open>node_config\<close>: \<^verbatim>\<open>conn.get_node_config(name)\<close>, \<open>None\<close> when Jenkins does not know the
    node, otherwise the children of the root of the XML document as pairs of tag and text;
  \<^item> \<open>job_info_found\<close>: whether \<^verbatim>\<open>conn.get_job_info(job_name)\<close> returns instead of raising
    \<^verbatim>\<open>JenkinsException\<close>;
  \<^item> \<open>job_config\<close>: the configuration fetched for a job url;
  \<^item> \<open>queue_info\<close>: \<^verbatim>\<open>conn.get_queue_info()\<close>, \<open>None\<close> for an answer that is neither true
    nor \<^verbatim>\<open>[]\<close>;
  \<^item> \<open>ci_nodes\<close>: the names in \<^verbatim>\<open>conn.get_nodes()\<close>;
  \<^item> \<open>node_idle\<close>: the truth of \<^verbatim>\<open>conn.get_node_info(name).get('idle')\<close>;
  \<^item> \<open>nodes_are_dicts\<close>: whether the entries of \<^verbatim>\<open>pecan.conf.nodes\<close> are dictionaries,
    which \<^verbatim>\<open>json.dumps\<close> serializes. The comment in \<^verbatim>\<open>get_nodes\<close> has both cases: a
    \<^verbatim>\<open>ConfigDict\<close>, which is a dictionary, and a pecan \<^verbatim>\<open>Config\<close>, whose entries are
    \<^verbatim>\<open>Config\<close> objects, for which \<^verbatim>\<open>json.dumps\<close> raises \<^verbatim>\<open>TypeError\<close>.
\<close>

record world =
  conf_nodes :: catalog
  matching_nodes :: "ustring \<Rightarrow> catalog \<Rightarrow> ustring list"
  node_config :: "ustring \<Rightarrow> (ustring \<times> ustring option) list option"
  job_info_found :: "ustring \<Rightarrow> bool"
  job_config :: "ustring \<Rightarrow> job_config"
  queue_info :: "task list option"
  ci_nodes :: "ustring list"
  node_idle :: "ustring \<Rightarrow> bool"
  nodes_are_dicts :: bool

section \<open>Label resolution\<close>

definition get_nodes :: "world \<Rightarrow> catalog" where
  "get_nodes w = conf_nodes w"

text \<open>\<^verbatim>\<open>configured_nodes or get_nodes()\<close>: an empty dictionary is false.\<close>

definition or_get_nodes :: "world \<Rightarrow> catalog option \<Rightarrow> catalog" where
  "or_get_nodes w configured_nodes =
     (case configured_nodes of
        None \<Rightarrow> get_nodes w
      | Some d \<Rightarrow> if d = [] then get_nodes w else d)"

text \<open>
  \<^verbatim>\<open>get_node_labels(node_name)\<close>: the name is encoded to ASCII, dropping what does not
  encode; the labels are the words of the first \<^verbatim>\<open>label\<close> element.
\<close>

fun label_words :: "(ustring \<times> ustring option) list \<Rightarrow> py_error + ustring list" where
  "label_words [] = Inr []"
| "label_words ((tag, text) # nodes) =
     (if tag = u ''label'' then
        (case text of None \<Rightarrow> Inl AttributeError | Some t \<Rightarrow> Inr (split_ws t))
      else label_words nodes)"

definition get_node_labels :: "world \<Rightarrow> ustring \<Rightarrow> py_error + ustring list" where
  "get_node_labels w node_name =
     (let node_name = filter (\<lambda>c. c < 128) node_name
      in case node_config w node_name of
           None \<Rightarrow> Inr []
         | Some xml_object \<Rightarrow> label_words xml_object)"

definition match_node_from_label :: "world \<Rightarrow> ustring \<Rightarrow> catalog option \<Rightarrow> ustring option" where
  "match_node_from_label w label configured_nodes =
     map_option fst
       (find (\<lambda>(node, metadata). label \<in> set (labels metadata))
          (or_get_nodes w configured_nodes))"

fun labels_exist :: "ustring list \<Rightarrow> ustring list \<Rightarrow> bool" where
  "labels_exist [] config = True"
| "labels_exist (l # ls) config = (if l \<notin> set config then False else labels_exist ls config)"

definition match_node_from_labels ::
  "world \<Rightarrow> ustring list option \<Rightarrow> catalog option \<Rightarrow> ustring option" where
  "match_node_from_labels w labels_arg configured_nodes =
     (case labels_arg of
        None \<Rightarrow> None
      | Some ls \<Rightarrow>
          if ls = [] then None
          else map_option fst
                 (find (\<lambda>(node, metadata). labels_exist ls (labels metadata))
                    (or_get_nodes w configured_nodes)))"

definition match_node_from_label_expr ::
  "world \<Rightarrow> ustring option \<Rightarrow> catalog option \<Rightarrow> ustring option" where
  "match_node_from_label_expr w expr configured_nodes =
     (case expr of
        None \<Rightarrow> None
      | Some e \<Rightarrow>
          if e = [] then None
          else (case matching_nodes w e (or_get_nodes w configured_nodes) of
                  [] \<Rightarrow> None
                | m # _ \<Rightarrow> Some m))"

text \<open>
  \<^verbatim>\<open>from_label(string)\<close>. The \<^verbatim>\<open>IndexError\<close> of \<^verbatim>\<open>string.split()[-1]\<close> is caught by the
  source and gives \<^verbatim>\<open>None\<close>.
\<close>

definition from_label :: "world \<Rightarrow> ustring \<Rightarrow> py_error + ustring option" where
  "from_label w string =
     (case split_ws string of
        [] \<Rightarrow> Inr None
      | t # ts \<Rightarrow>
          let node_or_label = sanitize_string (last (t # ts)) False;
              node_from_label = match_node_from_label w node_or_label None;
              configured_nodes = get_nodes w;
              match = py_or (get_key configured_nodes (Some node_or_label) True)
                        (get_key configured_nodes node_from_label True);
              match = (if match = None
                       then get_key configured_nodes
                              (Some (hd (split_sep node_or_label (u ''__'')))) True
                       else match);
              matched_node = (if match = None
                              then match_node_from_label_expr w (Some node_or_label)
                                     (Some configured_nodes)
                              else None)
          in if match = None \<and> truthy matched_node then Inr matched_node
             else if match = None then
               (case get_node_labels w node_or_label of
                  Inl e \<Rightarrow> Inl e
                | Inr ls \<Rightarrow> Inr (match_node_from_labels w (Some ls) None))
             else Inr match)"

definition from_offline_node_label :: "world \<Rightarrow> ustring \<Rightarrow> py_error + ustring option" where
  "from_offline_node_label w string =
     (let string = sanitize_string string False
      in case split_ws string of
           [] \<Rightarrow> Inl IndexError
         | t # ts \<Rightarrow>
             let label = last (t # ts);
                 matched_node = match_node_from_label w label None
             in if matched_node = None
                then Inr (match_node_from_label_expr w (Some label) (Some (get_nodes w)))
                else Inr matched_node)"

definition from_offline_label :: "world \<Rightarrow> ustring \<Rightarrow> py_error + ustring option" where
  "from_offline_label w string =
     (let string = sanitize_string string False;
          ws = split_ws string
      in if length ws < 3 then Inl IndexError
         else let label = ws ! (length ws - 3);
                  single_label_match = match_node_from_label w label None
              in if \<not> truthy single_label_match then from_offline_node_label w label
                 else Inr single_label_match)"

definition from_offline_node :: "world \<Rightarrow> ustring \<Rightarrow> py_error + ustring option" where
  "from_offline_node w string =
     (case split_ws string of
        [] \<Rightarrow> Inl IndexError
      | node # _ \<Rightarrow>
          let configured_nodes = get_nodes w;
              match = get_key configured_nodes (Some node) True
          in if match = None
             then (let node = hd (split_sep node (u ''__''))
                   in Inr (if node \<in> set (keys configured_nodes) then Some node else None))
             else Inr match)"

fun from_node_without_label_loop :: "world \<Rightarrow> ustring list \<Rightarrow> py_error + ustring option" where
  "from_node_without_label_loop w [] = Inr None"
| "from_node_without_label_loop w (message # messages) =
     (if contains doesnt_have_label message then
        (case from_label w message of
           Inl e \<Rightarrow> Inl e
         | Inr node \<Rightarrow>
             if \<not> truthy node then from_node_without_label_loop w messages else Inr node)
      else from_node_without_label_loop w messages)"

definition from_node_without_label :: "world \<Rightarrow> ustring \<Rightarrow> py_error + ustring option" where
  "from_node_without_label w string =
     from_node_without_label_loop w (split_sep string (u '';''))"

subsection \<open>\<^verbatim>\<open>match_node\<close>\<close>

text \<open>
  \<^verbatim>\<open>match_node\<close> asks five summaries in turn for a processor and calls the first one it is
  given. \<open>processor_for\<close> is that choice and \<open>run_processor\<close> the call.
\<close>

datatype processor =
  From_label | From_offline_label | From_offline_node | From_offline_node_label
  | From_node_without_label

fun first_processor :: "(ustring \<Rightarrow> processor option) list \<Rightarrow> ustring \<Rightarrow> processor option" where
  "first_processor [] string = None"
| "first_processor (summary # summaries) string =
     (case summary string of
        Some processor \<Rightarrow> Some processor
      | None \<Rightarrow> first_processor summaries string)"

definition processor_for :: "ustring \<Rightarrow> processor option" where
  "processor_for string =
     first_processor
       [\<lambda>s. if startswith s (u ''Waiting for'') then Some From_label else None,
        \<lambda>s. if startswith s (u ''All nodes of label'') then Some From_offline_label else None,
        \<lambda>s. if endswith s (u ''is offline'') then Some From_offline_node else None,
        \<lambda>s. if startswith s (u ''There are no nodes'') then Some From_offline_node_label
             else None,
        \<lambda>s. if contains doesnt_have_label s then Some From_node_without_label else None]
       string"

fun run_processor :: "world \<Rightarrow> processor \<Rightarrow> ustring \<Rightarrow> py_error + ustring option" where
  "run_processor w From_label string = from_label w string"
| "run_processor w From_offline_label string = from_offline_label w string"
| "run_processor w From_offline_node string = from_offline_node w string"
| "run_processor w From_offline_node_label string = from_offline_node_label w string"
| "run_processor w From_node_without_label string = from_node_without_label w string"

definition match_node :: "world \<Rightarrow> ustring \<Rightarrow> py_error + ustring option" where
  "match_node w string =
     (case processor_for string of
        None \<Rightarrow> Inr None
      | Some processor \<Rightarrow> run_processor w processor string)"

subsection \<open>Inference from the job\<close>

definition match_node_from_job_config :: "world \<Rightarrow> ustring \<Rightarrow> ustring option" where
  "match_node_from_job_config w job_url =
     (case job_config w job_url of
        Fetch_failed \<Rightarrow> None
      | No_assigned_node \<Rightarrow> None
      | Assigned_node label_expression \<Rightarrow> match_node_from_label_expr w label_expression None)"

text \<open>
  \<^verbatim>\<open>[label.split("=")[1] for label in labels]\<close> raises \<^verbatim>\<open>IndexError\<close> at a part with no
  \<^verbatim>\<open>=\<close>. \<^verbatim>\<open>list(set(labels))\<close> keeps one copy of each label, in an order that the matching
  does not depend on.
\<close>

fun label_values :: "ustring list \<Rightarrow> py_error + ustring list" where
  "label_values [] = Inr []"
| "label_values (label # ls) =
     (case split_sep label (u ''='') of
        _ # v # _ \<Rightarrow> (case label_values ls of Inl e \<Rightarrow> Inl e | Inr vs \<Rightarrow> Inr (v # vs))
      | _ \<Rightarrow> Inl IndexError)"

definition match_node_from_matrix_job_name :: "world \<Rightarrow> ustring \<Rightarrow> py_error + ustring option" where
  "match_node_from_matrix_job_name w job_name =
     (case label_values (split_sep job_name (u '','')) of
        Inl e \<Rightarrow> Inl e
      | Inr ls \<Rightarrow> Inr (match_node_from_labels w (Some (remdups ls)) None))"

section \<open>The periodic tasks\<close>

subsection \<open>\<^verbatim>\<open>check_idling\<close>\<close>

text \<open>
  The requests sent to the mita API: \<^verbatim>\<open>get_mita_api('nodes', uuid, 'idle')\<close>,
  \<^verbatim>\<open>get_mita_api('nodes', uuid, 'active')\<close>, and \<^verbatim>\<open>get_mita_api('nodes')\<close> with the
  node type, its count and its configuration as data.
\<close>

datatype api_post =
  Post_idle ustring
  | Post_active ustring
  | Post_nodes ustring nat metadata

fun check_idling_loop :: "world \<Rightarrow> ustring list \<Rightarrow> api_post list" where
  "check_idling_loop w [] = []"
| "check_idling_loop w (n # ns) =
     (let uuid = last (split_sep n (u ''__''))
      in (if node_idle w n then Post_idle uuid else Post_active uuid) # check_idling_loop w ns)"

definition check_idling :: "world \<Rightarrow> api_post list" where
  "check_idling w =
     (let mita_nodes = filter (\<lambda>n. length (split_sep n (u ''__'')) > 1) (ci_nodes w)
      in if mita_nodes \<noteq> [] then check_idling_loop w mita_nodes else [])"

text \<open>Consecutive runs of the task, each in the world it finds; the posts in order.\<close>

definition check_idling_runs :: "world list \<Rightarrow> api_post list" where
  "check_idling_runs ws = concat (map check_idling ws)"

subsection \<open>\<^verbatim>\<open>check_queue\<close>\<close>

text \<open>
  The body of the loop over the queue, up to the update of \<^verbatim>\<open>needed_nodes\<close>: the node name
  this task is counted for, \<open>None\<close> when the body leaves the task uncounted.
\<close>

definition check_queue_task :: "world \<Rightarrow> task \<Rightarrow> py_error + ustring option" where
  "check_queue_task w t =
     (case why t of
        None \<Rightarrow> Inr None
      | Some reason \<Rightarrow>
          if is_stuck reason then
            (case match_node w reason of
               Inl e \<Rightarrow> Inl e
             | Inr node_name \<Rightarrow>
                 if \<not> truthy node_name then
                   (let job_url = task_url t;
                        job_name = job_from_url job_url
                    in case (if job_info_found w job_name
                             then Inr (match_node_from_job_config w job_url)
                             else match_node_from_matrix_job_name w job_name) of
                         Inl e \<Rightarrow> Inl e
                       | Inr node_name \<Rightarrow> if \<not> truthy node_name then Inr None else Inr node_name)
                 else Inr node_name)
          else Inr None)"

text \<open>
  \<^verbatim>\<open>needed_nodes\<close> is a dictionary from node names to counts, kept in the order the names
  came in. A count is never zero, so the update adds one to a count that is there and
  enters one for a name that is not.
\<close>

fun needed_incr :: "(ustring \<times> nat) list \<Rightarrow> ustring \<Rightarrow> (ustring \<times> nat) list" where
  "needed_incr [] node_name = [(node_name, 1)]"
| "needed_incr ((k, c) # rest) node_name =
     (if k = node_name then (k, c + 1) # rest else (k, c) # needed_incr rest node_name)"

fun check_queue_scan ::
  "world \<Rightarrow> (ustring \<times> nat) list \<Rightarrow> task list \<Rightarrow> py_error + (ustring \<times> nat) list" where
  "check_queue_scan w needed_nodes [] = Inr needed_nodes"
| "check_queue_scan w needed_nodes (t # ts) =
     (case check_queue_task w t of
        Inl e \<Rightarrow> Inl e
      | Inr None \<Rightarrow> check_queue_scan w needed_nodes ts
      | Inr (Some node_name) \<Rightarrow> check_queue_scan w (needed_incr needed_nodes node_name) ts)"

text \<open>
  The loop that posts: \<^verbatim>\<open>pecan.conf.nodes[node_name]\<close> raises \<^verbatim>\<open>KeyError\<close> for a name that
  is not configured, and \<^verbatim>\<open>json.dumps(configured_node)\<close> raises \<^verbatim>\<open>TypeError\<close> for an entry
  that is not a dictionary, in both cases after the posts already made. The result is the
  posts made and the exception that ended the task, if one did.
\<close>

fun check_queue_post :: "world \<Rightarrow> (ustring \<times> nat) list \<Rightarrow> api_post list \<times> py_error option" where
  "check_queue_post w [] = ([], None)"
| "check_queue_post w ((node_name, count) # rest) =
     (case map_of (conf_nodes w) node_name of
        None \<Rightarrow> ([], Some KeyError)
      | Some configured_node \<Rightarrow>
          if \<not> nodes_are_dicts w then ([], Some TypeError)
          else (case check_queue_post w rest of
                  (posts, err) \<Rightarrow> (Post_nodes node_name count configured_node # posts, err)))"

definition check_queue :: "world \<Rightarrow> api_post list \<times> py_error option" where
  "check_queue w =
     (case queue_info w of
        None \<Rightarrow> check_queue_post w []
      | Some result \<Rightarrow>
          if result \<noteq> [] then
            (case check_queue_scan w [] result of
               Inl e \<Rightarrow> ([], Some e)
             | Inr needed_nodes \<Rightarrow> check_queue_post w needed_nodes)
          else check_queue_post w [])"

section \<open>The OpenStack provider\<close>

text \<open>
  The value of a \<^verbatim>\<open>state\<close> attribute is a string or a number: the source compares it with
  \<^verbatim>\<open>'creating'\<close> and with \<^verbatim>\<open>3\<close>.
\<close>

datatype state_value = Str ustring | Num int

record volume =
  vol_name :: ustring
  vol_state :: state_value

record cloud_node =
  cn_name :: ustring
  cn_state :: state_value

text \<open>An exception raised inside the libcloud driver.\<close>

datatype driver_fault = Driver_fault

text \<open>
  The driver as the provider functions see it:
  \<^item> \<open>list_nodes\<close>: \<^verbatim>\<open>driver.list_nodes()\<close>, the nodes that exist at the provider;
  \<^item> \<open>driver_destroy_node\<close>: \<^verbatim>\<open>driver.destroy_node(node)\<close>, which raises or returns a
    result that is true or false;
  \<^item> \<open>list_volumes k\<close>: what \<^verbatim>\<open>driver.list_volumes()\<close> answers to the call number \<open>k\<close>
    (from 0) of the operation;
  \<^item> \<open>driver_destroy_volume\<close>: \<^verbatim>\<open>driver.destroy_volume(volume)\<close>, which may raise.
\<close>

record driver =
  list_nodes :: "cloud_node list"
  driver_destroy_node :: "cloud_node \<Rightarrow> driver_fault + bool"
  list_volumes :: "nat \<Rightarrow> volume list"
  driver_destroy_volume :: "volume \<Rightarrow> driver_fault option"

definition UnavailableVolume :: "ustring \<Rightarrow> volume" where
  "UnavailableVolume name = \<lparr>vol_name = name, vol_state = Str (u ''notfound'')\<rparr>"

definition get_volume :: "driver \<Rightarrow> nat \<Rightarrow> ustring \<Rightarrow> volume" where
  "get_volume drv k name =
     (case filter (\<lambda>v. vol_name v = name) (list_volumes drv k) of
        [] \<Rightarrow> UnavailableVolume name
      | v # _ \<Rightarrow> v)"

subsection \<open>\<^verbatim>\<open>_wait_until_volume_available\<close>\<close>

text \<open>
  The loop, with the number of \<^verbatim>\<open>sleep(3)\<close> calls made so far in \<open>tries\<close>; it returns the
  volume it ends with and the final \<open>tries\<close>.
\<close>

function wait_loop :: "driver \<Rightarrow> state_value list \<Rightarrow> volume \<Rightarrow> nat \<Rightarrow> volume \<times> nat" where
  "wait_loop drv ok_states vol tries =
     (if vol_state vol \<in> set ok_states then
        (let vol = get_volume drv tries (vol_name vol);
             tries = tries + 1
         in if tries > 10 then (vol, tries)
            else if vol_state vol = Str (u ''notfound'') then (vol, tries)
            else wait_loop drv ok_states vol tries)
      else (vol, tries))"
  by pat_completeness auto
termination
  by (relation "measure (\<lambda>(drv, ok_states, vol, tries). 11 - tries)") auto

declare wait_loop.simps [simp del]

text \<open>
  What a call of \<^verbatim>\<open>_wait_until_volume_available\<close> does: its return value, the calls of
  \<^verbatim>\<open>get_volume\<close> it made, the seconds it slept, and whether it logged that the volume is not
  available and that it continues anyway.
\<close>

record wait_result =
  returned :: bool
  polls :: nat
  slept :: nat
  continue_anyway :: bool

definition wait_until_volume_available :: "driver \<Rightarrow> volume \<Rightarrow> bool \<Rightarrow> wait_result" where
  "wait_until_volume_available drv vol maybe_in_use =
     (let ok_states = [Str (u ''creating''), Num 3];
          ok_states = (if maybe_in_use then ok_states @ [Str (u ''in_use'')] else ok_states)
      in case wait_loop drv ok_states vol 0 of
           (vol, tries) \<Rightarrow>
             \<lparr>returned = True, polls = tries, slept = 3 * tries,
              continue_anyway = (vol_state vol \<notin> set [Str (u ''available''), Num 0])\<rparr>)"

subsection \<open>\<^verbatim>\<open>destroy_node\<close>\<close>

text \<open>
  The exceptions \<^verbatim>\<open>destroy_node\<close> ends with: \<^verbatim>\<open>CloudNodeNotFound\<close>, which only mita raises,
  the \<^verbatim>\<open>RuntimeError\<close> for a result that is false, and whatever the driver raised.
\<close>

datatype destroy_error = CloudNodeNotFound | RuntimeError | Libcloud driver_fault

definition destroy_volume :: "driver \<Rightarrow> ustring \<Rightarrow> driver_fault option" where
  "destroy_volume drv name =
     (let vol = get_volume drv 0 name
      in if vol_state vol \<noteq> Str (u ''notfound'') then driver_destroy_volume drv vol else None)"

fun destroy_node_loop :: "driver \<Rightarrow> ustring \<Rightarrow> cloud_node list \<Rightarrow> destroy_error + unit" where
  "destroy_node_loop drv name [] = Inl CloudNodeNotFound"
| "destroy_node_loop drv name (node # nodes) =
     (if cn_name node = name then
        (case driver_destroy_node drv node of
           Inl e \<Rightarrow> Inl (Libcloud e)
         | Inr result \<Rightarrow>
             if \<not> result then Inl RuntimeError
             else (case destroy_volume drv name of
                     Some e \<Rightarrow> Inl (Libcloud e)
                   | None \<Rightarrow> Inr ()))
      else destroy_node_loop drv name nodes)"

definition destroy_node :: "driver \<Rightarrow> ustring \<Rightarrow> destroy_error + unit" where
  "destroy_node drv name = destroy_node_loop drv name (list_nodes drv)"

section \<open>\<^verbatim>\<open>check_orphaned\<close>\<close>

text \<open>
  A row of \<^verbatim>\<open>models.Node\<close>. A \<^verbatim>\<open>datetime\<close> is a number of microseconds since some epoch,
  so the difference of two is a number of microseconds.
\<close>

record node =
  node_id :: nat
  jenkins_name :: "ustring option"
  cloud_name :: ustring
  provider :: ustring
  created :: int

text \<open>
  \<^verbatim>\<open>timedelta.seconds\<close>: a \<^verbatim>\<open>timedelta\<close> is kept as days, seconds from 0 to 86399 and
  microseconds, and \<^verbatim>\<open>seconds\<close> is the second of the three.
\<close>

definition timedelta_seconds :: "int \<Rightarrow> int" where
  "timedelta_seconds difference = (difference mod 86400000000) div 1000000"

text \<open>
  What the task reads: whether Jenkins has a node of a name, the provider module of a
  provider name, and the clock, \<open>utcnow k\<close> being the answer to the call number \<open>k\<close> of
  \<^verbatim>\<open>datetime.utcnow()\<close>.
\<close>

record orphan_world =
  node_exists :: "ustring \<Rightarrow> bool"
  providers_get :: "ustring \<Rightarrow> driver"
  utcnow :: "nat \<Rightarrow> int"

text \<open>
  What the task has done: the rows left in the database, the calls of
  \<^verbatim>\<open>provider.destroy_node\<close> made (provider and name), and the number of clock readings.
\<close>

record orphan_state =
  rows :: "node list"
  destroy_calls :: "(ustring \<times> ustring) list"
  clock_reads :: nat

definition check_orphaned_node :: "orphan_world \<Rightarrow> orphan_state \<Rightarrow> node \<Rightarrow> orphan_state" where
  "check_orphaned_node w s n =
     (if truthy (jenkins_name n) \<and> node_exists w (the (jenkins_name n)) then s
      else
        let now = utcnow w (clock_reads s);
            s = s\<lparr>clock_reads := clock_reads s + 1\<rparr>;
            difference = now - created n
        in if timedelta_seconds difference > 900 then
             (let drv = providers_get w (provider n);
                  s = s\<lparr>destroy_calls := destroy_calls s @ [(provider n, cloud_name n)]\<rparr>
              in case destroy_node drv (cloud_name n) of
                   Inl CloudNodeNotFound \<Rightarrow> s\<lparr>rows := filter (\<lambda>r. node_id r \<noteq> node_id n) (rows s)\<rparr>
                 | Inl _ \<Rightarrow> s
                 | Inr _ \<Rightarrow> s)
           else s)"

fun check_orphaned_loop :: "orphan_world \<Rightarrow> orphan_state \<Rightarrow> node list \<Rightarrow> orphan_state" where
  "check_orphaned_loop w s [] = s"
| "check_orphaned_loop w s (n # ns) = check_orphaned_loop w (check_orphaned_node w s n) ns"

text \<open>
  The task up to the end of its loop over \<^verbatim>\<open>models.Node.query.all()\<close>, on the rows the
  query returned.
\<close>

definition check_orphaned :: "orphan_world \<Rightarrow> node list \<Rightarrow> orphan_state" where
  "check_orphaned w nodes =
     check_orphaned_loop w \<lparr>rows = nodes, destroy_calls = [], clock_reads = 0\<rparr> nodes"

section \<open>Example configurations\<close>

text \<open>A catalog of two node types, and a world in which Jenkins knows nothing else.\<close>

definition example_catalog :: catalog where
  "example_catalog =
     [(u ''centos6'', \<lparr>labels = [u ''centos6'', u ''x86_64''], launch = []\<rparr>),
      (u ''wheezy'', \<lparr>labels = [u ''wheezy'', u ''x86_64'', u ''huge''], launch = []\<rparr>)]"

definition example_world :: world where
  "example_world =
     \<lparr>conf_nodes = example_catalog,
      matching_nodes = (\<lambda>expr d. []),
      node_config = (\<lambda>name. None),
      job_info_found = (\<lambda>job_name. False),
      job_config = (\<lambda>job_url. Fetch_failed),
      queue_info = Some [],
      ci_nodes = [],
      node_idle = (\<lambda>name. False),
      nodes_are_dicts = True\<rparr>"

text \<open>A catalog whose only key is the empty string.\<close>

definition empty_key_world :: world where
  "empty_key_world = example_world\<lparr>conf_nodes := [([], \<lparr>labels = [], launch = []\<rparr>)]\<rparr>"

section \<open>Label expressions\<close>

text \<open>
  Modelled from the spec: \<^verbatim>\<open>mita.label_eval.matching_nodes\<close>, which
  \<^verbatim>\<open>match_node_from_label_expr\<close> calls and which is not among the sources. The spec has (4.1,
  step 4): label-expression evaluation supports \<^verbatim>\<open>&&\<close>-joined multi-label expressions; a
  node type matches only if all labels in the expression are present in its configured
  label set; the first matching node type wins, in catalog iteration order. So the
  function returns the names of the matching node types in catalog order.
\<close>

definition spec_matching_nodes :: "ustring \<Rightarrow> catalog \<Rightarrow> ustring list" where
  "spec_matching_nodes expr d =
     map fst (filter (\<lambda>(node, metadata).
                 list_all (\<lambda>l. l \<in> set (labels metadata)) (split_sep expr (u ''&&''))) d)"

text \<open>The example world with this evaluation of label expressions.\<close>

definition spec_world :: world where
  "spec_world = example_world\<lparr>matching_nodes := spec_matching_nodes\<rparr>"

text \<open>
  A world in which Jenkins lists the single node \<open>n\<close>, idle or not.
\<close>

definition idle_world :: "ustring \<Rightarrow> bool \<Rightarrow> world" where
  "idle_world n idle = example_world\<lparr>ci_nodes := [n], node_idle := (\<lambda>name. idle)\<rparr>"

text \<open>
  A world in which Jenkins lists the nodes \<open>ns\<close> and \<open>idle\<close> tells which of them are idle.
\<close>

definition fleet_world :: "ustring list \<Rightarrow> (ustring \<Rightarrow> bool) \<Rightarrow> world" where
  "fleet_world ns idle = example_world\<lparr>ci_nodes := ns, node_idle := idle\<rparr>"

text \<open>A queue of four tasks: two wait for \<^verbatim>\<open>centos6\<close>, one for \<^verbatim>\<open>wheezy\<close>, one has no reason yet.\<close>

definition example_queue :: "task list" where
  "example_queue =
     [\<lparr>why = Some (u ''Waiting for next available executor on centos6''),
       task_name = u ''build-a'', task_url = u ''http://jenkins/job/build-a/''\<rparr>,
      \<lparr>why = Some (u ''wheezy is offline''),
       task_name = u ''build-b'', task_url = u ''http://jenkins/job/build-b/''\<rparr>,
      \<lparr>why = None,
       task_name = u ''build-c'', task_url = u ''http://jenkins/job/build-c/''\<rparr>,
      \<lparr>why = Some (u ''Waiting for next available executor on centos6''),
       task_name = u ''build-d'', task_url = u ''http://jenkins/job/build-d/''\<rparr>]"

definition queue_world :: world where
  "queue_world = example_world\<lparr>queue_info := Some example_queue\<rparr>"

text \<open>
  A queue of two tasks: the first waits for \<^verbatim>\<open>centos6\<close>; the second waits for \<^verbatim>\<open>trusty\<close>,
  which nothing of the catalog matches, and its job \<^verbatim>\<open>build-b\<close> is one Jenkins has no
  information for.
\<close>

definition unmatched_queue :: "task list" where
  "unmatched_queue =
     [\<lparr>why = Some (u ''Waiting for next available executor on centos6''),
       task_name = u ''build-a'', task_url = u ''http://jenkins/job/build-a/''\<rparr>,
      \<lparr>why = Some (u ''Waiting for next available executor on trusty''),
       task_name = u ''build-b'', task_url = u ''http://jenkins/job/build-b/''\<rparr>]"

definition unmatched_world :: world where
  "unmatched_world = example_world\<lparr>queue_info := Some unmatched_queue\<rparr>"

text \<open>The world of the queue of four tasks, with a catalog of \<^verbatim>\<open>Config\<close> objects.\<close>

definition config_world :: world where
  "config_world = queue_world\<lparr>nodes_are_dicts := False\<rparr>"

text \<open>
  Drivers: one whose volume stays in the state \<^verbatim>\<open>creating\<close>, one of a provider with no
  node, and one of a provider that has the node \<^verbatim>\<open>centos6__f81d\<close> and answers a request
  to destroy it as given.
\<close>

definition creating_driver :: driver where
  "creating_driver =
     \<lparr>list_nodes = [],
      driver_destroy_node = (\<lambda>node. Inr True),
      list_volumes = (\<lambda>k. [\<lparr>vol_name = u ''data'', vol_state = Str (u ''creating'')\<rparr>]),
      driver_destroy_volume = (\<lambda>vol. None)\<rparr>"

definition empty_driver :: driver where
  "empty_driver =
     \<lparr>list_nodes = [],
      driver_destroy_node = (\<lambda>node. Inr True),
      list_volumes = (\<lambda>k. []),
      driver_destroy_volume = (\<lambda>vol. None)\<rparr>"

definition holding_driver :: "driver_fault + bool \<Rightarrow> driver" where
  "holding_driver answer =
     \<lparr>list_nodes = [\<lparr>cn_name = u ''centos6__f81d'', cn_state = Str (u ''running'')\<rparr>],
      driver_destroy_node = (\<lambda>node. answer),
      list_volumes = (\<lambda>k. []),
      driver_destroy_volume = (\<lambda>vol. None)\<rparr>"

definition orphan_world_at :: "driver \<Rightarrow> int \<Rightarrow> orphan_world" where
  "orphan_world_at drv now =
     \<lparr>node_exists = (\<lambda>name. False), providers_get = (\<lambda>name. drv), utcnow = (\<lambda>k. now)\<rparr>"

definition orphan_node :: node where
  "orphan_node =
     \<lparr>node_id = 1, jenkins_name = None, cloud_name = u ''centos6__f81d'',
      provider = u ''openstack'', created = 0\<rparr>"

section \<open>Properties\<close>

subsection \<open>Strings\<close>

lemma startswith_append: "startswith (p @ r) p"
  by (simp add: startswith_def)

lemma startswith_iff: "startswith s p \<longleftrightarrow> (\<exists>r. s = p @ r)"
proof
  assume "startswith s p"
  then have "s = p @ drop (length p) s"
    by (metis append_take_drop_id startswith_def)
  then show "\<exists>r. s = p @ r" ..
next
  assume "\<exists>r. s = p @ r"
  then show "startswith s p"
    by (auto simp: startswith_def)
qed

lemma contains_iff: "contains p s \<longleftrightarrow> (\<exists>a b. s = a @ p @ b)"
proof (induction s)
  case Nil
  then show ?case by auto
next
  case (Cons c cs)
  show ?case
  proof
    assume "contains p (c # cs)"
    then consider "startswith (c # cs) p" | "contains p cs" by auto
    then show "\<exists>a b. c # cs = a @ p @ b"
    proof cases
      case 1
      then obtain r where "c # cs = p @ r" by (auto simp: startswith_iff)
      then have "c # cs = [] @ p @ r" by simp
      then show ?thesis by blast
    next
      case 2
      with Cons.IH obtain a b where "cs = a @ p @ b" by blast
      then have "c # cs = (c # a) @ p @ b" by simp
      then show ?thesis by blast
    qed
  next
    assume "\<exists>a b. c # cs = a @ p @ b"
    then obtain a b where ab: "c # cs = a @ p @ b" by blast
    show "contains p (c # cs)"
    proof (cases a)
      case Nil
      with ab have "startswith (c # cs) p" by (simp add: startswith_iff)
      then show ?thesis by simp
    next
      case (Cons x a')
      with ab have "cs = a' @ p @ b" by simp
      with Cons.IH show ?thesis by auto
    qed
  qed
qed

lemma words_from_Nil_iff: "words_from cur s = [] \<longleftrightarrow> cur = [] \<and> (\<forall>c\<in>set s. isspace c)"
  by (induction s arbitrary: cur) auto

lemma split_ws_Nil_iff: "split_ws s = [] \<longleftrightarrow> (\<forall>c\<in>set s. isspace c)"
  by (simp add: split_ws_def words_from_Nil_iff)

lemma waiting_for_words:
  assumes "startswith s (u ''Waiting for'')"
  shows "split_ws s \<noteq> []"
proof -
  from assms obtain r where "s = u ''Waiting for'' @ r"
    by (auto simp: startswith_iff)
  then have "87 \<in> set s" by (simp add: u_def)
  moreover have "\<not> isspace 87" by (simp add: isspace_def)
  ultimately show ?thesis by (auto simp: split_ws_Nil_iff)
qed

subsection \<open>The catalog lookup\<close>

text \<open>
  C5. For a lookup key that is not empty, \<open>get_key\<close> with the fallback enabled returns the
  key itself when the catalog has it, and otherwise the first key of the catalog, in
  iteration order, that is a substring of the lookup key (nothing when there is none).
\<close>

theorem get_key_verbatim_or_first_substring:
  assumes "key \<noteq> []"
  shows "get_key d (Some key) True =
    (if key \<in> set (keys d) then Some key
     else find (\<lambda>name. \<exists>a b. key = a @ name @ b) (keys d))"
  using assms by (simp add: get_key_def contains_iff)

theorem get_key_verbatim_or_first_substring_witness:
  "u ''10.0.0.1__centos6__huge'' \<noteq> [] \<and>
   get_key [(u ''centos6'', \<lparr>labels = [u ''centos6''], launch = []\<rparr>)]
     (Some (u ''10.0.0.1__centos6__huge'')) True = Some (u ''centos6'')"
proof -
  let ?key = "u ''10.0.0.1__centos6__huge''"
  let ?d = "[(u ''centos6'', \<lparr>labels = [u ''centos6''], launch = []\<rparr>)]"
  have ne: "?key \<noteq> []" by (simp add: u_def)
  have "contains (u ''centos6'') ?key" by code_simp
  then have sub: "\<exists>a b. ?key = a @ u ''centos6'' @ b" by (simp add: contains_iff)
  have notin: "?key \<notin> set (keys ?d)" by (simp add: keys_def u_def)
  from get_key_verbatim_or_first_substring [OF ne, of ?d] sub notin ne show ?thesis
    by (simp add: keys_def)
qed

subsection \<open>Stuck reasons and the dispatch\<close>

lemma is_stuck_iff:
  "is_stuck s \<longleftrightarrow>
     startswith s (u ''Waiting for'') \<or> startswith s (u ''All nodes of label'') \<or>
     endswith s (u ''is offline'') \<or> startswith s (u ''There are no nodes'') \<or>
     contains doesnt_have_label s"
  by (simp add: is_stuck_def busy_summary_def offline_label_summary_def
      offline_node_summary_def offline_node_label_summary_def node_does_not_have_label_def)

lemma processor_for_None_iff: "processor_for s = None \<longleftrightarrow> \<not> is_stuck s"
  by (simp add: processor_for_def is_stuck_iff)

text \<open>
  C6. \<open>is_stuck\<close> holds of a reason exactly when it starts with \<^verbatim>\<open>Waiting for\<close>, starts with
  \<^verbatim>\<open>All nodes of label\<close>, ends with \<^verbatim>\<open>is offline\<close>, starts with \<^verbatim>\<open>There are no nodes\<close> or
  contains the marker with the curly apostrophe. On exactly these reasons \<open>match_node\<close>
  calls a resolver, the one of the first test that holds: \<open>from_label\<close>,
  \<open>from_offline_label\<close>, \<open>from_offline_node\<close>, \<open>from_offline_node_label\<close> or
  \<open>from_node_without_label\<close>. On every other reason it calls none and returns \<^verbatim>\<open>None\<close>.
\<close>

theorem is_stuck_five_patterns:
  "(is_stuck s \<longleftrightarrow>
      startswith s (u ''Waiting for'') \<or> startswith s (u ''All nodes of label'') \<or>
      endswith s (u ''is offline'') \<or> startswith s (u ''There are no nodes'') \<or>
      (\<exists>a b. s = a @ doesnt_have_label @ b))
   \<and> match_node w s =
       (if startswith s (u ''Waiting for'') then from_label w s
        else if startswith s (u ''All nodes of label'') then from_offline_label w s
        else if endswith s (u ''is offline'') then from_offline_node w s
        else if startswith s (u ''There are no nodes'') then from_offline_node_label w s
        else if (\<exists>a b. s = a @ doesnt_have_label @ b) then from_node_without_label w s
        else Inr None)
   \<and> (is_stuck s \<longleftrightarrow> (\<exists>p. processor_for s = Some p \<and> match_node w s = run_processor w p s))
   \<and> (\<not> is_stuck s \<longrightarrow> processor_for s = None \<and> match_node w s = Inr None)"
proof (intro conjI)
  show "is_stuck s \<longleftrightarrow>
      startswith s (u ''Waiting for'') \<or> startswith s (u ''All nodes of label'') \<or>
      endswith s (u ''is offline'') \<or> startswith s (u ''There are no nodes'') \<or>
      (\<exists>a b. s = a @ doesnt_have_label @ b)"
    by (simp add: is_stuck_iff contains_iff)
  show "match_node w s =
       (if startswith s (u ''Waiting for'') then from_label w s
        else if startswith s (u ''All nodes of label'') then from_offline_label w s
        else if endswith s (u ''is offline'') then from_offline_node w s
        else if startswith s (u ''There are no nodes'') then from_offline_node_label w s
        else if (\<exists>a b. s = a @ doesnt_have_label @ b) then from_node_without_label w s
        else Inr None)"
    by (simp add: match_node_def processor_for_def contains_iff [symmetric])
  show "is_stuck s \<longleftrightarrow> (\<exists>p. processor_for s = Some p \<and> match_node w s = run_processor w p s)"
  proof (cases "processor_for s")
    case None
    then have "\<not> is_stuck s" by (simp add: processor_for_None_iff)
    with None show ?thesis by simp
  next
    case (Some p)
    then have "is_stuck s" using processor_for_None_iff [of s] by simp
    with Some show ?thesis by (simp add: match_node_def)
  qed
  show "\<not> is_stuck s \<longrightarrow> processor_for s = None \<and> match_node w s = Inr None"
    by (simp add: processor_for_None_iff [symmetric] match_node_def)
qed

theorem is_stuck_five_patterns_witness:
  "is_stuck (u ''Waiting for next available executor on centos6'') \<and>
   match_node example_world (u ''Waiting for next available executor on centos6'')
     = from_label example_world (u ''Waiting for next available executor on centos6'') \<and>
   from_label example_world (u ''Waiting for next available executor on centos6'')
     = Inr (Some (u ''centos6'')) \<and>
   is_stuck (u ''All nodes of label '' @ [8216] @ u ''huge'' @ [8217] @ u '' are offline'') \<and>
   match_node example_world
       (u ''All nodes of label '' @ [8216] @ u ''huge'' @ [8217] @ u '' are offline'')
     = from_offline_label example_world
         (u ''All nodes of label '' @ [8216] @ u ''huge'' @ [8217] @ u '' are offline'') \<and>
   from_offline_label example_world
       (u ''All nodes of label '' @ [8216] @ u ''huge'' @ [8217] @ u '' are offline'')
     = Inr (Some (u ''wheezy'')) \<and>
   is_stuck (u ''wheezy is offline'') \<and>
   match_node example_world (u ''wheezy is offline'')
     = from_offline_node example_world (u ''wheezy is offline'') \<and>
   from_offline_node example_world (u ''wheezy is offline'') = Inr (Some (u ''wheezy'')) \<and>
   is_stuck (u ''There are no nodes with the label '' @ [8216] @ u ''x86_64'' @ [8217]) \<and>
   match_node example_world
       (u ''There are no nodes with the label '' @ [8216] @ u ''x86_64'' @ [8217])
     = from_offline_node_label example_world
         (u ''There are no nodes with the label '' @ [8216] @ u ''x86_64'' @ [8217]) \<and>
   from_offline_node_label example_world
       (u ''There are no nodes with the label '' @ [8216] @ u ''x86_64'' @ [8217])
     = Inr (Some (u ''centos6'')) \<and>
   is_stuck (u ''node7 doesn'' @ [8217] @ u ''t have label wheezy'') \<and>
   match_node example_world (u ''node7 doesn'' @ [8217] @ u ''t have label wheezy'')
     = from_node_without_label example_world
         (u ''node7 doesn'' @ [8217] @ u ''t have label wheezy'') \<and>
   from_node_without_label example_world
       (u ''node7 doesn'' @ [8217] @ u ''t have label wheezy'')
     = Inr (Some (u ''wheezy'')) \<and>
   \<not> is_stuck (u ''Finished waiting'') \<and>
   match_node example_world (u ''Finished waiting'') = Inr None"
proof -
  let ?s1 = "u ''Waiting for next available executor on centos6''"
  let ?s2 = "u ''All nodes of label '' @ [8216] @ u ''huge'' @ [8217] @ u '' are offline''"
  let ?s3 = "u ''wheezy is offline''"
  let ?s4 = "u ''There are no nodes with the label '' @ [8216] @ u ''x86_64'' @ [8217]"
  let ?s5 = "u ''node7 doesn'' @ [8217] @ u ''t have label wheezy''"
  let ?s6 = "u ''Finished waiting''"
  have p1: "startswith ?s1 (u ''Waiting for'')" by code_simp
  have p2: "\<not> startswith ?s2 (u ''Waiting for'')" "startswith ?s2 (u ''All nodes of label'')"
    by code_simp+
  have p3: "\<not> startswith ?s3 (u ''Waiting for'')" "\<not> startswith ?s3 (u ''All nodes of label'')"
    "endswith ?s3 (u ''is offline'')"
    by code_simp+
  have p4: "\<not> startswith ?s4 (u ''Waiting for'')" "\<not> startswith ?s4 (u ''All nodes of label'')"
    "\<not> endswith ?s4 (u ''is offline'')" "startswith ?s4 (u ''There are no nodes'')"
    by code_simp+
  have p5: "\<not> startswith ?s5 (u ''Waiting for'')" "\<not> startswith ?s5 (u ''All nodes of label'')"
    "\<not> endswith ?s5 (u ''is offline'')" "\<not> startswith ?s5 (u ''There are no nodes'')"
    "contains doesnt_have_label ?s5"
    by code_simp+
  have p6: "\<not> is_stuck ?s6" by code_simp
  have i: "is_stuck ?s1" "is_stuck ?s2" "is_stuck ?s3" "is_stuck ?s4" "is_stuck ?s5"
    by code_simp+
  have r1: "from_label example_world ?s1 = Inr (Some (u ''centos6''))" by code_simp
  have r2: "from_offline_label example_world ?s2 = Inr (Some (u ''wheezy''))" by code_simp
  have r3: "from_offline_node example_world ?s3 = Inr (Some (u ''wheezy''))" by code_simp
  have r4: "from_offline_node_label example_world ?s4 = Inr (Some (u ''centos6''))" by code_simp
  have r5: "from_node_without_label example_world ?s5 = Inr (Some (u ''wheezy''))" by code_simp
  have m1: "match_node example_world ?s1 = from_label example_world ?s1"
    using is_stuck_five_patterns [of ?s1 example_world] p1 by simp
  have m2: "match_node example_world ?s2 = from_offline_label example_world ?s2"
    using is_stuck_five_patterns [of ?s2 example_world] p2 by simp
  have m3: "match_node example_world ?s3 = from_offline_node example_world ?s3"
    using is_stuck_five_patterns [of ?s3 example_world] p3 by simp
  have m4: "match_node example_world ?s4 = from_offline_node_label example_world ?s4"
    using is_stuck_five_patterns [of ?s4 example_world] p4 by simp
  have m5: "match_node example_world ?s5 = from_node_without_label example_world ?s5"
    using is_stuck_five_patterns [of ?s5 example_world] p5 by (simp add: contains_iff)
  have m6: "match_node example_world ?s6 = Inr None"
    using is_stuck_five_patterns [of ?s6 example_world] p6 by simp
  from i m1 r1 m2 r2 m3 r3 m4 r4 m5 r5 p6 m6 show ?thesis by (intro conjI)
qed

subsection \<open>The busy resolver\<close>

lemma py_or_truthy: "truthy a \<Longrightarrow> py_or a b = a"
  by (simp add: py_or_def)

lemma from_label_match:
  assumes "split_ws s = t # ts"
    and "get_key (get_nodes w) (Some (sanitize_string (last (t # ts)) False)) True = Some k"
    and "k \<noteq> []"
  shows "from_label w s = Inr (Some k)"
proof -
  let ?tok = "sanitize_string (last (t # ts)) False"
  have m: "py_or (get_key (get_nodes w) (Some ?tok) True)
             (get_key (get_nodes w) (match_node_from_label w ?tok None) True) = Some k"
    using assms(2,3) by (simp add: py_or_truthy)
  show ?thesis
    unfolding from_label_def assms(1) list.case Let_def m
    by simp
qed

text \<open>
  C3, as the source has it. For a reason that starts with \<^verbatim>\<open>Waiting for\<close> and whose last word,
  with the curly quotes removed, is a key of the catalog and is not empty, \<open>from_label\<close>
  (and \<open>match_node\<close>, which calls it on such a reason) returns that key.
\<close>

theorem from_label_exact_key:
  assumes "startswith s (u ''Waiting for'')"
    and "sanitize_string (last (split_ws s)) False = k"
    and "k \<in> set (keys (get_nodes w))"
    and "k \<noteq> []"
  shows "from_label w s = Inr (Some k) \<and> match_node w s = Inr (Some k)"
proof -
  from assms(1) obtain t ts where ws: "split_ws s = t # ts"
    using waiting_for_words [of s] by (cases "split_ws s") auto
  have key: "get_key (get_nodes w) (Some k) True = Some k"
    using assms(3,4) by (simp add: get_key_def)
  have fl: "from_label w s = Inr (Some k)"
    using from_label_match [OF ws, of w k] key assms(2,4) ws by simp
  have "processor_for s = Some From_label"
    using assms(1) by (simp add: processor_for_def)
  with fl show ?thesis by (simp add: match_node_def)
qed

theorem from_label_exact_key_witness:
  "startswith (u ''Waiting for next available executor on centos6'') (u ''Waiting for'') \<and>
   sanitize_string (last (split_ws (u ''Waiting for next available executor on centos6'')))
     False = u ''centos6'' \<and>
   u ''centos6'' \<in> set (keys (get_nodes example_world)) \<and>
   u ''centos6'' \<noteq> [] \<and>
   from_label example_world (u ''Waiting for next available executor on centos6'')
     = Inr (Some (u ''centos6'')) \<and>
   match_node example_world (u ''Waiting for next available executor on centos6'')
     = Inr (Some (u ''centos6''))"
proof -
  let ?s = "u ''Waiting for next available executor on centos6''"
  have h1: "startswith ?s (u ''Waiting for'')" by code_simp
  have h2: "sanitize_string (last (split_ws ?s)) False = u ''centos6''" by code_simp
  have h3: "u ''centos6'' \<in> set (keys (get_nodes example_world))" by code_simp
  have h4: "u ''centos6'' \<noteq> []" by code_simp
  from from_label_exact_key [OF h1 h2 h3 h4] h1 h2 h3 h4 show ?thesis by simp
qed

text \<open>
  C3 as stated fails for a key that is empty: \<open>get_key\<close> answers \<^verbatim>\<open>None\<close> to an empty lookup
  key before it looks at the catalog. The reason below ends with a word that is a single
  U+2019, which sanitizes to the empty string, a key of the catalog.
\<close>

theorem from_label_empty_key_counterexample:
  "startswith (u ''Waiting for '' @ [8217]) (u ''Waiting for'') \<and>
   sanitize_string (last (split_ws (u ''Waiting for '' @ [8217]))) False = [] \<and>
   [] \<in> set (keys (get_nodes empty_key_world)) \<and>
   from_label empty_key_world (u ''Waiting for '' @ [8217]) = Inr None \<and>
   match_node empty_key_world (u ''Waiting for '' @ [8217]) = Inr None"
  by code_simp

subsection \<open>Label expressions\<close>

lemma split_from_no_sep: "x \<notin> set s \<Longrightarrow> split_from (x # sep) cur s = [cur @ s]"
proof (induction s arbitrary: cur)
  case Nil
  then show ?case by (simp add: split_from.simps)
next
  case (Cons c cs)
  then have "\<not> startswith (c # cs) (x # sep)" by (auto simp: startswith_def)
  with Cons show ?case by (subst split_from.simps) simp
qed

lemma split_from_append:
  "x \<notin> set a \<Longrightarrow>
   split_from (x # sep) cur (a @ (x # sep) @ b) = (cur @ a) # split_from (x # sep) [] b"
proof (induction a arbitrary: cur)
  case Nil
  have "startswith ((x # sep) @ b) (x # sep)" by (rule startswith_append)
  then show ?case by (subst split_from.simps) simp
next
  case (Cons c cs)
  then have "\<not> startswith ((c # cs) @ (x # sep) @ b) (x # sep)" by (auto simp: startswith_def)
  with Cons show ?case by (subst split_from.simps) simp
qed

lemma split_and_and:
  assumes "38 \<notin> set a" and "38 \<notin> set b"
  shows "split_sep (a @ u ''&&'' @ b) (u ''&&'') = [a, b]"
proof -
  have amp: "u ''&&'' = [38, 38]" by (simp add: u_def)
  show ?thesis
    using assms split_from_append [of 38 a "[38]" "[]" b] split_from_no_sep [of 38 b "[38]" "[]"]
    by (simp add: split_sep_def amp)
qed

lemma or_get_nodes_configured:
  "c = None \<or> c = Some (get_nodes w) \<Longrightarrow> or_get_nodes w c = get_nodes w"
  by (auto simp: or_get_nodes_def)

text \<open>
  C4. With label expressions evaluated as the spec describes, and \<open>a\<close> and \<open>b\<close> two labels
  (strings with no \<^verbatim>\<open>&\<close>), resolving the expression \<^verbatim>\<open>a&&b\<close> against the configured catalog,
  whether the caller leaves the catalog out or passes \<^verbatim>\<open>get_nodes()\<close> as the resolvers do,
  succeeds exactly when some entry has both \<open>a\<close> and \<open>b\<close> among its labels, and a name it
  returns is the key of the first such entry in catalog order.
\<close>

theorem label_expr_superset:
  assumes "38 \<notin> set a" and "38 \<notin> set b" and "matching_nodes w = spec_matching_nodes"
    and "c = None \<or> c = Some (get_nodes w)"
  shows "(match_node_from_label_expr w (Some (a @ u ''&&'' @ b)) c \<noteq> None \<longleftrightarrow>
            (\<exists>(node, md) \<in> set (get_nodes w). {a, b} \<subseteq> set (labels md)))
       \<and> (\<forall>k. match_node_from_label_expr w (Some (a @ u ''&&'' @ b)) c = Some k \<longrightarrow>
            (\<exists>pre md post. get_nodes w = pre @ (k, md) # post \<and> {a, b} \<subseteq> set (labels md) \<and>
               (\<forall>(n, m) \<in> set pre. \<not> {a, b} \<subseteq> set (labels m))))"
proof -
  let ?e = "a @ u ''&&'' @ b"
  let ?P = "\<lambda>(node, md). {a, b} \<subseteq> set (labels md)"
  have ne: "?e \<noteq> []" by (simp add: u_def)
  have oc: "or_get_nodes w c = get_nodes w"
    using assms(4) by (rule or_get_nodes_configured)
  have m: "matching_nodes w ?e (get_nodes w) = map fst (filter ?P (get_nodes w))"
    using assms(1,2,3) by (simp add: spec_matching_nodes_def split_and_and list_all_iff)
  have r: "match_node_from_label_expr w (Some ?e) c =
             (case filter ?P (get_nodes w) of [] \<Rightarrow> None | x # _ \<Rightarrow> Some (fst x))"
    using ne by (simp add: match_node_from_label_expr_def oc m split: list.splits)
  show ?thesis
  proof (intro conjI allI impI)
    show "match_node_from_label_expr w (Some ?e) c \<noteq> None \<longleftrightarrow>
            (\<exists>(node, md) \<in> set (get_nodes w). {a, b} \<subseteq> set (labels md))"
    proof -
      have "match_node_from_label_expr w (Some ?e) c \<noteq> None \<longleftrightarrow>
              filter ?P (get_nodes w) \<noteq> []"
        unfolding r by (simp split: list.splits)
      also have "\<dots> \<longleftrightarrow> (\<exists>x \<in> set (get_nodes w). ?P x)"
        by (simp add: filter_empty_conv)
      finally show ?thesis .
    qed
  next
    fix k
    assume "match_node_from_label_expr w (Some ?e) c = Some k"
    then obtain x xs where f: "filter ?P (get_nodes w) = x # xs" and k: "fst x = k"
      unfolding r by (auto split: list.splits)
    from f obtain us vs where d: "get_nodes w = us @ x # vs"
      and us: "\<forall>y\<in>set us. \<not> ?P y" and x: "?P x"
      by (auto simp: filter_eq_Cons_iff)
    obtain md where xm: "x = (k, md)" using k by (cases x) auto
    from d us x xm
    have "get_nodes w = us @ (k, md) # vs \<and> {a, b} \<subseteq> set (labels md) \<and>
            (\<forall>(n, m) \<in> set us. \<not> {a, b} \<subseteq> set (labels m))"
      by auto
    then show "\<exists>pre md post. get_nodes w = pre @ (k, md) # post \<and> {a, b} \<subseteq> set (labels md) \<and>
               (\<forall>(n, m) \<in> set pre. \<not> {a, b} \<subseteq> set (labels m))"
      by blast
  qed
qed

theorem label_expr_superset_witness:
  "38 \<notin> set (u ''x86_64'') \<and> 38 \<notin> set (u ''huge'') \<and>
   matching_nodes spec_world = spec_matching_nodes \<and>
   (\<exists>(node, md) \<in> set (get_nodes spec_world). {u ''x86_64'', u ''huge''} \<subseteq> set (labels md)) \<and>
   match_node_from_label_expr spec_world (Some (u ''x86_64'' @ u ''&&'' @ u ''huge'')) None
     = Some (u ''wheezy'') \<and>
   match_node_from_label_expr spec_world (Some (u ''x86_64'' @ u ''&&'' @ u ''huge''))
       (Some (get_nodes spec_world))
     = Some (u ''wheezy'')"
proof -
  have h1: "38 \<notin> set (u ''x86_64'')" by code_simp
  have h2: "38 \<notin> set (u ''huge'')" by code_simp
  have h3: "matching_nodes spec_world = spec_matching_nodes"
    by (simp add: spec_world_def)
  have r: "match_node_from_label_expr spec_world (Some (u ''x86_64'' @ u ''&&'' @ u ''huge'')) None
     = Some (u ''wheezy'')" by code_simp
  have r': "match_node_from_label_expr spec_world (Some (u ''x86_64'' @ u ''&&'' @ u ''huge''))
       (Some (get_nodes spec_world)) = Some (u ''wheezy'')" by code_simp
  have e: "\<exists>(node, md) \<in> set (get_nodes spec_world).
             {u ''x86_64'', u ''huge''} \<subseteq> set (labels md)"
    using label_expr_superset [OF h1 h2 h3, of "Some (get_nodes spec_world)"] r' by simp
  from h1 h2 h3 e r r' show ?thesis by (intro conjI)
qed

subsection \<open>Matching a list of labels\<close>

lemma labels_exist_iff: "labels_exist ls config \<longleftrightarrow> set ls \<subseteq> set config"
  by (induction ls) auto

lemma find_SomeD: "find P xs = Some x \<Longrightarrow> x \<in> set xs \<and> P x"
  by (induction xs) (auto split: if_splits)

lemma match_node_from_labels_Some:
  assumes "match_node_from_labels w (Some ls) None = Some k"
  shows "ls \<noteq> [] \<and> (\<exists>md. (k, md) \<in> set (get_nodes w) \<and> set ls \<subseteq> set (labels md))"
proof -
  from assms have ne: "ls \<noteq> []"
    by (auto simp: match_node_from_labels_def split: if_splits)
  with assms obtain x where
    f: "find (\<lambda>(node, metadata). labels_exist ls (labels metadata)) (get_nodes w) = Some x"
    and k: "fst x = k"
    by (auto simp: match_node_from_labels_def or_get_nodes_def)
  from find_SomeD [OF f] k have "(k, snd x) \<in> set (get_nodes w) \<and> set ls \<subseteq> set (labels (snd x))"
    by (cases x) (auto simp: labels_exist_iff)
  with ne show ?thesis by blast
qed

text \<open>
  C10. \<open>match_node_from_labels\<close> returns no match for a label list that is absent or empty,
  whatever the catalog, although \<open>labels_exist\<close> holds of the empty list for every entry.
  A node type that the inference from a matrix job name selects is therefore backed by
  labels: those read from the name are not empty and all belong to the selected entry.
\<close>

theorem match_node_from_labels_empty:
  "match_node_from_labels w None c = None
   \<and> match_node_from_labels w (Some []) c = None
   \<and> labels_exist [] config
   \<and> (\<forall>k. match_node_from_matrix_job_name w job_name = Inr (Some k) \<longrightarrow>
        (\<exists>ls md. label_values (split_sep job_name (u '','')) = Inr ls \<and> ls \<noteq> [] \<and>
           (k, md) \<in> set (get_nodes w) \<and> set ls \<subseteq> set (labels md)))"
proof (intro conjI allI impI)
  show "match_node_from_labels w None c = None"
    by (simp add: match_node_from_labels_def)
  show "match_node_from_labels w (Some []) c = None"
    by (simp add: match_node_from_labels_def)
  show "labels_exist [] config" by simp
next
  fix k
  assume a: "match_node_from_matrix_job_name w job_name = Inr (Some k)"
  then obtain ls where lv: "label_values (split_sep job_name (u '','')) = Inr ls"
    and m: "match_node_from_labels w (Some (remdups ls)) None = Some k"
    by (auto simp: match_node_from_matrix_job_name_def split: sum.splits)
  from match_node_from_labels_Some [OF m] obtain md where
    "remdups ls \<noteq> []" "(k, md) \<in> set (get_nodes w)" "set ls \<subseteq> set (labels md)"
    by auto
  with lv show "\<exists>ls md. label_values (split_sep job_name (u '','')) = Inr ls \<and> ls \<noteq> [] \<and>
           (k, md) \<in> set (get_nodes w) \<and> set ls \<subseteq> set (labels md)"
    by auto
qed

theorem match_node_from_labels_empty_witness:
  "match_node_from_matrix_job_name example_world (u ''ARCH=x86_64,MACHINE_SIZE=huge'')
     = Inr (Some (u ''wheezy'')) \<and>
   (\<exists>ls md. label_values (split_sep (u ''ARCH=x86_64,MACHINE_SIZE=huge'') (u '','')) = Inr ls \<and>
      ls \<noteq> [] \<and> (u ''wheezy'', md) \<in> set (get_nodes example_world) \<and>
      set ls \<subseteq> set (labels md)) \<and>
   match_node_from_labels example_world (Some []) None = None"
proof -
  have r: "match_node_from_matrix_job_name example_world (u ''ARCH=x86_64,MACHINE_SIZE=huge'')
     = Inr (Some (u ''wheezy''))" by code_simp
  from match_node_from_labels_empty
         [of example_world None "[]" "u ''ARCH=x86_64,MACHINE_SIZE=huge''"] r
  show ?thesis by simp
qed

subsection \<open>Idle reports\<close>

lemma check_idling_loop_map:
  "check_idling_loop w ns =
     map (\<lambda>n. if node_idle w n then Post_idle (last (split_sep n (u ''__'')))
               else Post_active (last (split_sep n (u ''__'')))) ns"
  by (induction ns) (simp_all add: Let_def)

text \<open>
  C7, as the source has it. The task keeps no memory of earlier runs: in every run, and
  whatever else Jenkins lists, it posts once for each node whose name has the parts that
  mark it as mita's, \<^verbatim>\<open>idle\<close> when the node is idle and \<^verbatim>\<open>active\<close> when it is not. So
  consecutive runs post once per such node and run, in order: a node found idle and then
  not idle gets \<^verbatim>\<open>idle\<close>, then \<^verbatim>\<open>active\<close>, and a node found in the state of the run before
  gets the post of the run before again.
\<close>

theorem check_idling_reports_every_run:
  "check_idling_runs ws =
     concat (map (\<lambda>w. map (\<lambda>n. if node_idle w n then Post_idle (last (split_sep n (u ''__'')))
                              else Post_active (last (split_sep n (u ''__''))))
                        (filter (\<lambda>n. 1 < length (split_sep n (u ''__''))) (ci_nodes w))) ws)"
proof -
  have "check_idling w =
          map (\<lambda>n. if node_idle w n then Post_idle (last (split_sep n (u ''__'')))
                    else Post_active (last (split_sep n (u ''__''))))
            (filter (\<lambda>n. 1 < length (split_sep n (u ''__''))) (ci_nodes w))" for w
    by (simp add: check_idling_def Let_def check_idling_loop_map)
  then have "check_idling =
          (\<lambda>w. map (\<lambda>n. if node_idle w n then Post_idle (last (split_sep n (u ''__'')))
                    else Post_active (last (split_sep n (u ''__''))))
            (filter (\<lambda>n. 1 < length (split_sep n (u ''__''))) (ci_nodes w)))"
    by (intro ext)
  then show ?thesis by (simp only: check_idling_runs_def)
qed

theorem check_idling_reports_every_run_witness:
  "check_idling_runs
     [fleet_world [u ''master'', u ''10.0.0.1__centos6__f81d'', u ''10.0.0.2__wheezy__a3c9'']
        (\<lambda>n. n = u ''10.0.0.1__centos6__f81d''),
      fleet_world [u ''master'', u ''10.0.0.1__centos6__f81d'', u ''10.0.0.2__wheezy__a3c9'']
        (\<lambda>n. False)]
     = [Post_idle (u ''f81d''), Post_active (u ''a3c9''),
        Post_active (u ''f81d''), Post_active (u ''a3c9'')]"
proof -
  let ?ns = "[u ''master'', u ''10.0.0.1__centos6__f81d'', u ''10.0.0.2__wheezy__a3c9'']"
  let ?ws = "[fleet_world ?ns (\<lambda>n. n = u ''10.0.0.1__centos6__f81d''),
              fleet_world ?ns (\<lambda>n. False)]"
  have "concat (map (\<lambda>w. map (\<lambda>n. if node_idle w n then Post_idle (last (split_sep n (u ''__'')))
                              else Post_active (last (split_sep n (u ''__''))))
                        (filter (\<lambda>n. 1 < length (split_sep n (u ''__''))) (ci_nodes w))) ?ws)
        = [Post_idle (u ''f81d''), Post_active (u ''a3c9''),
           Post_active (u ''f81d''), Post_active (u ''a3c9'')]"
    by code_simp
  with check_idling_reports_every_run [of ?ws] show ?thesis by simp
qed

text \<open>
  C7 as stated fails in its last part: a run that finds the node idle as the run before did
  posts \<^verbatim>\<open>idle\<close> again.
\<close>

theorem check_idling_duplicate_counterexample:
  "check_idling_runs [idle_world (u ''10.0.0.1__centos6__f81d'') True,
                      idle_world (u ''10.0.0.1__centos6__f81d'') True]
     = [Post_idle (u ''f81d''), Post_idle (u ''f81d'')]"
  by code_simp

subsection \<open>The queue\<close>

lemma needed_incr_keys_old: "k \<in> fst ` set nd \<Longrightarrow> map fst (needed_incr nd k) = map fst nd"
  by (induction nd) force+

lemma needed_incr_keys_new:
  "k \<notin> fst ` set nd \<Longrightarrow> map fst (needed_incr nd k) = map fst nd @ [k]"
  by (induction nd) auto

lemma needed_incr_keys:
  "map fst (needed_incr nd k) = (if k \<in> set (map fst nd) then map fst nd else map fst nd @ [k])"
  using needed_incr_keys_old [of k nd] needed_incr_keys_new [of k nd] by simp

lemma needed_incr_map_of:
  "map_of (needed_incr nd k) =
     (map_of nd)(k \<mapsto> (case map_of nd k of None \<Rightarrow> 1 | Some c \<Rightarrow> c + 1))"
  by (induction nd) (auto simp: fun_eq_iff)

lemma needed_incr_distinct: "distinct (map fst nd) \<Longrightarrow> distinct (map fst (needed_incr nd k))"
  by (simp add: needed_incr_keys)

lemma check_queue_scan_counts:
  assumes "check_queue_scan w nd ts = Inr nd'" and "distinct (map fst nd)"
  shows "distinct (map fst nd')
     \<and> set (map fst nd') = set (map fst nd) \<union> {k. \<exists>t \<in> set ts. check_queue_task w t = Inr (Some k)}
     \<and> (\<forall>k. (case map_of nd' k of None \<Rightarrow> 0 | Some c \<Rightarrow> c) =
             (case map_of nd k of None \<Rightarrow> 0 | Some c \<Rightarrow> c)
             + length (filter (\<lambda>t. check_queue_task w t = Inr (Some k)) ts))"
  using assms
proof (induction ts arbitrary: nd)
  case Nil
  then show ?case by simp
next
  case (Cons t ts)
  show ?case
  proof (cases "check_queue_task w t")
    case (Inl e)
    with Cons.prems show ?thesis by simp
  next
    case (Inr r)
    show ?thesis
    proof (cases r)
      case None
      with Inr Cons.prems have "check_queue_scan w nd ts = Inr nd'" by simp
      from Cons.IH [OF this Cons.prems(2)] Inr None show ?thesis by auto
    next
      case (Some name)
      with Inr Cons.prems have s: "check_queue_scan w (needed_incr nd name) ts = Inr nd'" by simp
      have d: "distinct (map fst (needed_incr nd name))"
        using Cons.prems(2) by (rule needed_incr_distinct)
      note ih = Cons.IH [OF s d]
      have keys: "set (map fst (needed_incr nd name)) = insert name (set (map fst nd))"
        by (auto simp: needed_incr_keys)
      have cnt: "\<And>k. (case map_of (needed_incr nd name) k of None \<Rightarrow> 0 | Some c \<Rightarrow> c) =
                 (case map_of nd k of None \<Rightarrow> 0 | Some c \<Rightarrow> c) + (if k = name then 1 else 0)"
        by (simp add: needed_incr_map_of split: option.splits)
      from ih have "distinct (map fst nd')" by simp
      moreover from ih keys Inr Some
      have "set (map fst nd') =
              set (map fst nd) \<union> {k. \<exists>t \<in> set (t # ts). check_queue_task w t = Inr (Some k)}"
        by auto
      moreover have "\<forall>k. (case map_of nd' k of None \<Rightarrow> 0 | Some c \<Rightarrow> c) =
             (case map_of nd k of None \<Rightarrow> 0 | Some c \<Rightarrow> c)
             + length (filter (\<lambda>t. check_queue_task w t = Inr (Some k)) (t # ts))"
      proof
        fix k
        from ih have "(case map_of nd' k of None \<Rightarrow> 0 | Some c \<Rightarrow> c) =
             (case map_of (needed_incr nd name) k of None \<Rightarrow> 0 | Some c \<Rightarrow> c)
             + length (filter (\<lambda>t. check_queue_task w t = Inr (Some k)) ts)"
          by blast
        with cnt [of k] Inr Some
        show "(case map_of nd' k of None \<Rightarrow> 0 | Some c \<Rightarrow> c) =
             (case map_of nd k of None \<Rightarrow> 0 | Some c \<Rightarrow> c)
             + length (filter (\<lambda>t. check_queue_task w t = Inr (Some k)) (t # ts))"
          by auto
      qed
      ultimately show ?thesis by blast
    qed
  qed
qed

lemma check_queue_post_ok:
  "check_queue_post w nd = (posts, None) \<Longrightarrow>
   posts = map (\<lambda>(k, c). Post_nodes k c (the (map_of (conf_nodes w) k))) nd"
proof (induction nd arbitrary: posts)
  case Nil
  then show ?case by simp
next
  case (Cons kc nd)
  obtain k c where kc: "kc = (k, c)" by (cases kc)
  from Cons.prems kc obtain md ps where md: "map_of (conf_nodes w) k = Some md"
    and ps: "check_queue_post w nd = (ps, None)" and posts: "posts = Post_nodes k c md # ps"
    by (auto split: option.splits prod.splits if_splits)
  from Cons.IH [OF ps] md posts kc show ?case by simp
qed

text \<open>
  A task that ends without an exception has posted once per node type that some task of
  the queue was counted for, each with the number of tasks counted for the type; and a
  queue that is \<^verbatim>\<open>[]\<close> gives no post.
\<close>

lemma check_queue_posts_without_exception:
  "(queue_info w = Some [] \<longrightarrow> check_queue w = ([], None))
   \<and> (\<forall>tasks posts. queue_info w = Some tasks \<and> check_queue w = (posts, None) \<longrightarrow>
        (\<exists>names. distinct names
           \<and> set names = {k. \<exists>t \<in> set tasks. check_queue_task w t = Inr (Some k)}
           \<and> posts = map (\<lambda>k. Post_nodes k
                                 (length (filter (\<lambda>t. check_queue_task w t = Inr (Some k)) tasks))
                                 (the (map_of (conf_nodes w) k))) names))"
proof (intro conjI allI impI)
  show "check_queue w = ([], None)" if "queue_info w = Some []"
    using that by (simp add: check_queue_def)
next
  fix tasks posts
  assume "queue_info w = Some tasks \<and> check_queue w = (posts, None)"
  then have q: "queue_info w = Some tasks" and cq: "check_queue w = (posts, None)" by simp_all
  let ?C = "\<lambda>k. length (filter (\<lambda>t. check_queue_task w t = Inr (Some k)) tasks)"
  let ?R = "{k. \<exists>t \<in> set tasks. check_queue_task w t = Inr (Some k)}"
  show "\<exists>names. distinct names \<and> set names = ?R
           \<and> posts = map (\<lambda>k. Post_nodes k (?C k) (the (map_of (conf_nodes w) k))) names"
  proof (cases "tasks = []")
    case True
    with q cq have "posts = []" by (simp add: check_queue_def)
    with True show ?thesis by simp
  next
    case False
    with q cq obtain nd where scan: "check_queue_scan w [] tasks = Inr nd"
      and post: "check_queue_post w nd = (posts, None)"
      by (auto simp: check_queue_def split: sum.splits)
    from check_queue_scan_counts [OF scan] have d: "distinct (map fst nd)"
      and r: "set (map fst nd) = ?R"
      and c: "\<And>k. (case map_of nd k of None \<Rightarrow> 0 | Some c \<Rightarrow> c) = ?C k"
      by auto
    have "\<And>k n. (k, n) \<in> set nd \<Longrightarrow> n = ?C k"
    proof -
      fix k n assume "(k, n) \<in> set nd"
      with d have "map_of nd k = Some n" by simp
      with c [of k] show "n = ?C k" by simp
    qed
    then have "map (\<lambda>(k, c). Post_nodes k c (the (map_of (conf_nodes w) k))) nd =
               map (\<lambda>k. Post_nodes k (?C k) (the (map_of (conf_nodes w) k))) (map fst nd)"
      by auto
    with check_queue_post_ok [OF post] d r show ?thesis by blast
  qed
qed

lemma check_queue_example:
  "check_queue example_world = ([], None)"
  "check_queue queue_world =
     ([Post_nodes (u ''centos6'') 2 \<lparr>labels = [u ''centos6'', u ''x86_64''], launch = []\<rparr>,
       Post_nodes (u ''wheezy'') 1
         \<lparr>labels = [u ''wheezy'', u ''x86_64'', u ''huge''], launch = []\<rparr>], None)"
  by code_simp+

text \<open>
  With a catalog of \<^verbatim>\<open>Config\<close> objects the same queue gives no post: \<^verbatim>\<open>json.dumps\<close> raises
  before the first one.
\<close>

lemma check_queue_config_entries:
  "check_queue config_world = ([], Some TypeError)"
  by code_simp

text \<open>
  C8. The source does not post for every node type it resolved. In the queue below the
  first task is counted for \<^verbatim>\<open>centos6\<close>. The second is stuck and nothing matches it, so the
  node is inferred from its job; Jenkins has no information for the job, the name
  \<^verbatim>\<open>build-b\<close> is read as that of a matrix job, and \<^verbatim>\<open>label.split("=")[1]\<close> raises
  \<^verbatim>\<open>IndexError\<close>, which nothing catches: the task ends before the loop that posts, and
  \<^verbatim>\<open>centos6\<close> is not requested.
\<close>

theorem check_queue_index_error_no_post:
  "queue_info unmatched_world = Some unmatched_queue \<and>
   map (check_queue_task unmatched_world) [hd unmatched_queue] = [Inr (Some (u ''centos6''))] \<and>
   match_node unmatched_world (u ''Waiting for next available executor on trusty'') = Inr None \<and>
   job_from_url (u ''http://jenkins/job/build-b/'') = u ''build-b'' \<and>
   job_info_found unmatched_world (u ''build-b'') = False \<and>
   match_node_from_matrix_job_name unmatched_world (u ''build-b'') = Inl IndexError \<and>
   check_queue unmatched_world = ([], Some IndexError)"
  by code_simp

subsection \<open>Waiting for a volume\<close>

lemma get_volume_name: "vol_name (get_volume drv k name) = name"
proof (cases "filter (\<lambda>v. vol_name v = name) (list_volumes drv k)")
  case Nil
  then show ?thesis by (simp add: get_volume_def UnavailableVolume_def)
next
  case (Cons v vs)
  then have "v \<in> set (filter (\<lambda>v. vol_name v = name) (list_volumes drv k))" by simp
  then have "vol_name v = name" by simp
  with Cons show ?thesis by (simp add: get_volume_def)
qed

lemma wait_loop_tries: "tries \<le> 10 \<Longrightarrow> snd (wait_loop drv ok vol tries) \<le> 11"
proof (induction drv ok vol tries rule: wait_loop.induct)
  case (1 drv ok_states vol tries)
  show ?case
    using 1 by (subst wait_loop.simps) (auto simp: Let_def)
qed

lemma wait_loop_volume:
  "fst (wait_loop drv ok vol tries) = vol \<or>
   (\<exists>k. fst (wait_loop drv ok vol tries) = get_volume drv k (vol_name vol))"
proof (induction drv ok vol tries rule: wait_loop.induct)
  case (1 drv ok_states vol tries)
  show ?case
  proof (cases "vol_state vol \<in> set ok_states")
    case False
    then show ?thesis by (subst wait_loop.simps) simp
  next
    case True
    let ?v = "get_volume drv tries (vol_name vol)"
    show ?thesis
    proof (cases "tries + 1 > 10 \<or> vol_state ?v = Str (u ''notfound'')")
      case stop: True
      with True have "wait_loop drv ok_states vol tries = (?v, tries + 1)"
        by (subst wait_loop.simps) (auto simp: Let_def)
      then show ?thesis by auto
    next
      case go: False
      with True have eq: "wait_loop drv ok_states vol tries = wait_loop drv ok_states ?v (tries + 1)"
        by (subst wait_loop.simps) (auto simp: Let_def)
      from go True have "fst (wait_loop drv ok_states ?v (tries + 1)) = ?v \<or>
         (\<exists>k. fst (wait_loop drv ok_states ?v (tries + 1)) = get_volume drv k (vol_name ?v))"
        by (intro "1.IH") auto
      then show ?thesis unfolding eq by (auto simp: get_volume_name)
    qed
  qed
qed

text \<open>
  C9. \<open>wait_loop\<close> is a total function: the wait ends for every volume and whatever the
  driver answers. It returns \<^verbatim>\<open>True\<close>, after at most 11 polls (a first one and ten more: the
  loop leaves once \<open>tries\<close> is above 10) with 3 seconds of sleep before each. For a volume
  that is never seen available it logs that it continues anyway, and returns.
\<close>

theorem wait_until_volume_available_bounded:
  "returned (wait_until_volume_available drv vol maybe_in_use)
   \<and> polls (wait_until_volume_available drv vol maybe_in_use) \<le> 11
   \<and> slept (wait_until_volume_available drv vol maybe_in_use)
       = 3 * polls (wait_until_volume_available drv vol maybe_in_use)
   \<and> (vol_state vol \<notin> {Str (u ''available''), Num 0} \<and>
      (\<forall>k. vol_state (get_volume drv k (vol_name vol)) \<notin> {Str (u ''available''), Num 0})
      \<longrightarrow> continue_anyway (wait_until_volume_available drv vol maybe_in_use))"
proof -
  let ?ok = "if maybe_in_use then [Str (u ''creating''), Num 3] @ [Str (u ''in_use'')]
             else [Str (u ''creating''), Num 3]"
  obtain v t where w: "wait_loop drv ?ok vol 0 = (v, t)" by (cases "wait_loop drv ?ok vol 0")
  have r: "wait_until_volume_available drv vol maybe_in_use =
             \<lparr>returned = True, polls = t, slept = 3 * t,
              continue_anyway = (vol_state v \<notin> set [Str (u ''available''), Num 0])\<rparr>"
    using w by (simp add: wait_until_volume_available_def Let_def)
  have t: "t \<le> 11" using wait_loop_tries [of 0 drv ?ok vol] w by simp
  have v: "v = vol \<or> (\<exists>k. v = get_volume drv k (vol_name vol))"
    using wait_loop_volume [of drv ?ok vol 0] w by simp
  show ?thesis unfolding r using t v by auto
qed

theorem wait_until_volume_available_bounded_witness:
  "vol_state \<lparr>vol_name = u ''data'', vol_state = Str (u ''creating'')\<rparr>
     \<notin> {Str (u ''available''), Num 0} \<and>
   (\<forall>k. vol_state (get_volume creating_driver k (u ''data'')) \<notin> {Str (u ''available''), Num 0}) \<and>
   wait_until_volume_available creating_driver
     \<lparr>vol_name = u ''data'', vol_state = Str (u ''creating'')\<rparr> True
     = \<lparr>returned = True, polls = 11, slept = 33, continue_anyway = True\<rparr>"
proof -
  let ?vol = "\<lparr>vol_name = u ''data'', vol_state = Str (u ''creating'')\<rparr>"
  have g: "\<And>k. get_volume creating_driver k (u ''data'') = ?vol"
    by (simp add: get_volume_def creating_driver_def)
  have ne: "u ''creating'' \<noteq> u ''available''" by code_simp
  have h1: "vol_state ?vol \<notin> {Str (u ''available''), Num 0}" using ne by simp
  have h2: "\<forall>k. vol_state (get_volume creating_driver k (u ''data'')) \<notin> {Str (u ''available''), Num 0}"
    using ne by (simp add: g)
  have r: "wait_until_volume_available creating_driver ?vol True
     = \<lparr>returned = True, polls = 11, slept = 33, continue_anyway = True\<rparr>" by code_simp
  from wait_until_volume_available_bounded [of creating_driver ?vol True] h1 h2 r
  show ?thesis by simp
qed

subsection \<open>Orphaned nodes\<close>

lemma check_orphaned_901_899:
  "destroy_calls (check_orphaned (orphan_world_at empty_driver 901000000) [orphan_node])
     = [(u ''openstack'', u ''centos6__f81d'')]"
  "destroy_calls (check_orphaned (orphan_world_at empty_driver 899000000) [orphan_node]) = []"
  by code_simp+

lemma timedelta_seconds_within_day:
  "0 \<le> d \<Longrightarrow> d < 86400000000 \<Longrightarrow> timedelta_seconds d = d div 1000000"
  by (simp add: timedelta_seconds_def)

text \<open>
  C1. The source compares \<^verbatim>\<open>difference.seconds\<close>, the seconds within the day, with 900, and
  not the age. A node that Jenkins does not have and that was created one day and ten
  seconds ago has an age above 900 seconds and a \<^verbatim>\<open>seconds\<close> field of 10: no destruction is
  requested.
\<close>

theorem check_orphaned_day_old_node_kept:
  "900 * 1000000 < 86410000000 - created orphan_node \<and>
   timedelta_seconds (86410000000 - created orphan_node) = 10 \<and>
   destroy_calls (check_orphaned (orphan_world_at empty_driver 86410000000) [orphan_node]) = []"
  by code_simp

lemma destroy_node_loop_not_found:
  "destroy_node_loop drv name ns = Inl CloudNodeNotFound \<longleftrightarrow> name \<notin> cn_name ` set ns"
  by (induction ns) (auto split: sum.splits option.splits)

lemma destroy_node_not_found:
  "destroy_node drv name = Inl CloudNodeNotFound \<longleftrightarrow> name \<notin> cn_name ` set (list_nodes drv)"
  by (simp add: destroy_node_def destroy_node_loop_not_found)

lemma check_orphaned_node_cases:
  "check_orphaned_node w s n = s \<or>
   check_orphaned_node w s n = s\<lparr>clock_reads := clock_reads s + 1\<rparr> \<or>
   (check_orphaned_node w s n =
       s\<lparr>clock_reads := clock_reads s + 1,
         destroy_calls := destroy_calls s @ [(provider n, cloud_name n)],
         rows := (if destroy_node (providers_get w (provider n)) (cloud_name n)
                       = Inl CloudNodeNotFound
                  then filter (\<lambda>r. node_id r \<noteq> node_id n) (rows s) else rows s)\<rparr>)"
  by (auto simp: check_orphaned_node_def Let_def split: sum.splits destroy_error.splits)

text \<open>
  C2. When the task calls \<^verbatim>\<open>provider.destroy_node\<close> for a row, the call ends with
  \<^verbatim>\<open>CloudNodeNotFound\<close> exactly when the provider lists no node of the name; the row is
  deleted in that case, and otherwise (the destruction succeeded, or it ended with another
  exception) the rows are left as they were.
\<close>

theorem destroy_not_found_deletes_row:
  assumes "destroy_calls (check_orphaned_node w s n) = destroy_calls s @ [(provider n, cloud_name n)]"
  shows "(destroy_node (providers_get w (provider n)) (cloud_name n) = Inl CloudNodeNotFound
            \<longleftrightarrow> cloud_name n \<notin> cn_name ` set (list_nodes (providers_get w (provider n))))
       \<and> rows (check_orphaned_node w s n) =
           (if destroy_node (providers_get w (provider n)) (cloud_name n) = Inl CloudNodeNotFound
            then filter (\<lambda>r. node_id r \<noteq> node_id n) (rows s) else rows s)
       \<and> (n \<in> set (rows s) \<longrightarrow>
            (n \<notin> set (rows (check_orphaned_node w s n)) \<longleftrightarrow>
             destroy_node (providers_get w (provider n)) (cloud_name n) = Inl CloudNodeNotFound))"
proof -
  from check_orphaned_node_cases [of w s n] assms
  have r: "rows (check_orphaned_node w s n) =
           (if destroy_node (providers_get w (provider n)) (cloud_name n) = Inl CloudNodeNotFound
            then filter (\<lambda>r. node_id r \<noteq> node_id n) (rows s) else rows s)"
    by auto
  show ?thesis
    unfolding r by (auto simp: destroy_node_not_found)
qed

theorem destroy_not_found_deletes_row_witness:
  "destroy_calls (check_orphaned_node (orphan_world_at empty_driver 901000000)
       \<lparr>rows = [orphan_node], destroy_calls = [], clock_reads = 0\<rparr> orphan_node)
     = destroy_calls \<lparr>rows = [orphan_node], destroy_calls = [], clock_reads = 0\<rparr>
         @ [(provider orphan_node, cloud_name orphan_node)] \<and>
   destroy_node empty_driver (cloud_name orphan_node) = Inl CloudNodeNotFound \<and>
   rows (check_orphaned_node (orphan_world_at empty_driver 901000000)
       \<lparr>rows = [orphan_node], destroy_calls = [], clock_reads = 0\<rparr> orphan_node) = [] \<and>
   destroy_calls (check_orphaned_node (orphan_world_at (holding_driver (Inr False)) 901000000)
       \<lparr>rows = [orphan_node], destroy_calls = [], clock_reads = 0\<rparr> orphan_node)
     = destroy_calls \<lparr>rows = [orphan_node], destroy_calls = [], clock_reads = 0\<rparr>
         @ [(provider orphan_node, cloud_name orphan_node)] \<and>
   destroy_node (holding_driver (Inr False)) (cloud_name orphan_node) = Inl RuntimeError \<and>
   rows (check_orphaned_node (orphan_world_at (holding_driver (Inr False)) 901000000)
       \<lparr>rows = [orphan_node], destroy_calls = [], clock_reads = 0\<rparr> orphan_node)
     = [orphan_node]"
proof -
  let ?s = "\<lparr>rows = [orphan_node], destroy_calls = [], clock_reads = 0\<rparr>"
  let ?w = "orphan_world_at empty_driver 901000000"
  let ?v = "orphan_world_at (holding_driver (Inr False)) 901000000"
  have a1: "destroy_calls (check_orphaned_node ?w ?s orphan_node)
              = destroy_calls ?s @ [(provider orphan_node, cloud_name orphan_node)]"
    by code_simp
  have a2: "destroy_node empty_driver (cloud_name orphan_node) = Inl CloudNodeNotFound"
    by code_simp
  have b1: "destroy_calls (check_orphaned_node ?v ?s orphan_node)
              = destroy_calls ?s @ [(provider orphan_node, cloud_name orphan_node)]"
    by code_simp
  have b2: "destroy_node (holding_driver (Inr False)) (cloud_name orphan_node) = Inl RuntimeError"
    by code_simp
  have pw: "providers_get ?w (provider orphan_node) = empty_driver"
    and pv: "providers_get ?v (provider orphan_node) = holding_driver (Inr False)"
    by (simp_all add: orphan_world_at_def)
  from destroy_not_found_deletes_row [OF a1] a2
  have a3: "rows (check_orphaned_node ?w ?s orphan_node) = []" by (simp add: pw)
  from destroy_not_found_deletes_row [OF b1] b2
  have b3: "rows (check_orphaned_node ?v ?s orphan_node) = [orphan_node]" by (simp add: pv)
  from a1 a2 a3 b1 b2 b3 show ?thesis by (intro conjI)
qed

end
